theory Spec2Isabelle
  imports Complex_Main "HOL-Library.Word" "HOL-Library.Log_Nat"
begin

section \<open>JavaScript strings\<close>

text \<open>
  A JavaScript string is a sequence of UTF-16 code units. The handlers of
  \<^verbatim>\<open>src/routes/index.tsx\<close> read \<^verbatim>\<open>target.value\<close>, trim it, match it against a
  regular expression and convert it with \<^verbatim>\<open>Number\<close>; all of these work on code units.
\<close>

type_synonym code_unit = "16 word"
type_synonym jsstring = "code_unit list"

text \<open>A string literal of the source whose characters are all ASCII.\<close>

definition ascii :: "string \<Rightarrow> jsstring" where
  "ascii s = map of_char s"

text \<open>ECMA-262 LineTerminator: LF, CR, LINE SEPARATOR, PARAGRAPH SEPARATOR.\<close>

definition is_line_terminator :: "code_unit \<Rightarrow> bool" where
  "is_line_terminator c \<longleftrightarrow> c = 0x000A \<or> c = 0x000D \<or> c = 0x2028 \<or> c = 0x2029"

text \<open>ECMA-262 WhiteSpace: TAB, VT, FF, ZWNBSP and the Unicode category Zs.\<close>

definition is_white_space :: "code_unit \<Rightarrow> bool" where
  "is_white_space c \<longleftrightarrow>
     c = 0x0009 \<or> c = 0x000B \<or> c = 0x000C \<or> c = 0xFEFF \<or>
     c = 0x0020 \<or> c = 0x00A0 \<or> c = 0x1680 \<or> (0x2000 \<le> c \<and> c \<le> 0x200A) \<or>
     c = 0x202F \<or> c = 0x205F \<or> c = 0x3000"

definition is_trimmed_char :: "code_unit \<Rightarrow> bool" where
  "is_trimmed_char c \<longleftrightarrow> is_white_space c \<or> is_line_terminator c"

text \<open>\<^verbatim>\<open>String.prototype.trim\<close>: white space and line terminators removed at both ends.\<close>

definition trim :: "jsstring \<Rightarrow> jsstring" where
  "trim s = rev (dropWhile is_trimmed_char (rev (dropWhile is_trimmed_char s)))"

subsection \<open>The two regular expressions\<close>

text \<open>
  Both regular expressions of the source are a sequence of character classes, each with a
  quantifier, between \<^verbatim>\<open>^\<close> and \<^verbatim>\<open>$\<close>. Neither has the \<^verbatim>\<open>m\<close> flag, so the two anchors
  are the start and the end of the whole string, and \<^verbatim>\<open>value.match(re)\<close> is non-null
  exactly when the whole string is matched.
\<close>

datatype quantifier = Once | ZeroOrMore | OneOrMore

type_synonym regex = "((code_unit \<Rightarrow> bool) \<times> quantifier) list"

fun matches :: "regex \<Rightarrow> jsstring \<Rightarrow> bool" where
  "matches [] s = (s = [])"
| "matches ((p, Once) # r) [] = False"
| "matches ((p, Once) # r) (c # cs) = (p c \<and> matches r cs)"
| "matches ((p, OneOrMore) # r) [] = False"
| "matches ((p, OneOrMore) # r) (c # cs) = (p c \<and> matches ((p, ZeroOrMore) # r) cs)"
| "matches ((p, ZeroOrMore) # r) [] = matches r []"
| "matches ((p, ZeroOrMore) # r) (c # cs) =
     ((p c \<and> matches ((p, ZeroOrMore) # r) cs) \<or> matches r (c # cs))"

text \<open>\<^verbatim>\<open>[A-Z]\<close>, \<^verbatim>\<open>\d\<close> (ASCII digits only, with or without the \<^verbatim>\<open>u\<close> flag) and \<^verbatim>\<open>.\<close>
  (without the \<^verbatim>\<open>s\<close> flag: any code unit that is not a line terminator).\<close>

definition upper_class :: "code_unit \<Rightarrow> bool" where
  "upper_class c \<longleftrightarrow> 0x41 \<le> c \<and> c \<le> 0x5A"

definition digit_class :: "code_unit \<Rightarrow> bool" where
  "digit_class c \<longleftrightarrow> 0x30 \<le> c \<and> c \<le> 0x39"

definition dot_class :: "code_unit \<Rightarrow> bool" where
  "dot_class c \<longleftrightarrow> \<not> is_line_terminator c"

text \<open>\<^verbatim>\<open>/^[A-Z].*$/\<close> of the Name handler (line 36).\<close>

definition name_regex :: regex where
  "name_regex = [(upper_class, Once), (dot_class, ZeroOrMore)]"

text \<open>\<^verbatim>\<open>/^\d+$/\<close> of the Year handler (line 72).\<close>

definition year_regex :: regex where
  "year_regex = [(digit_class, OneOrMore)]"

subsection \<open>Form data\<close>

text \<open>
  \<^verbatim>\<open>new FormData(form)\<close> stores each control's value converted to a scalar value string:
  a surrogate code unit that is not part of a pair is replaced by U+FFFD.
\<close>

definition is_leading_surrogate :: "code_unit \<Rightarrow> bool" where
  "is_leading_surrogate c \<longleftrightarrow> 0xD800 \<le> c \<and> c \<le> 0xDBFF"

definition is_trailing_surrogate :: "code_unit \<Rightarrow> bool" where
  "is_trailing_surrogate c \<longleftrightarrow> 0xDC00 \<le> c \<and> c \<le> 0xDFFF"

fun to_scalar_values :: "jsstring \<Rightarrow> jsstring" where
  "to_scalar_values [] = []"
| "to_scalar_values [c] =
     (if is_leading_surrogate c \<or> is_trailing_surrogate c then [0xFFFD] else [c])"
| "to_scalar_values (c # d # r) =
     (if is_leading_surrogate c \<and> is_trailing_surrogate d then c # d # to_scalar_values r
      else if is_leading_surrogate c \<or> is_trailing_surrogate c
      then 0xFFFD # to_scalar_values (d # r)
      else c # to_scalar_values (d # r))"

section \<open>JavaScript numbers\<close>

text \<open>
  A Number value is NaN, an infinity with its sign, or a finite double, given by its sign
  (\<open>True\<close> is negative) and its magnitude, so that \<open>-0\<close> is \<open>Fin True 0\<close>.
\<close>

datatype jsnum = NaN | Fin bool rat | Infty bool

fun signed :: "bool \<Rightarrow> rat \<Rightarrow> rat" where
  "signed neg m = (if neg then - m else m)"

text \<open>The relational operator \<^verbatim>\<open>x < y\<close> on two Numbers; it is false when either is NaN.\<close>

fun js_lt :: "jsnum \<Rightarrow> jsnum \<Rightarrow> bool" where
  "js_lt NaN y = False"
| "js_lt (Fin s m) NaN = False"
| "js_lt (Fin s m) (Fin t n) = (signed s m < signed t n)"
| "js_lt (Fin s m) (Infty t) = (\<not> t)"
| "js_lt (Infty s) NaN = False"
| "js_lt (Infty s) (Fin t n) = s"
| "js_lt (Infty s) (Infty t) = (s \<and> \<not> t)"

definition isNaN :: "jsnum \<Rightarrow> bool" where
  "isNaN x \<longleftrightarrow> x = NaN"

subsection \<open>Rounding to a double\<close>

definition round_half_even :: "rat \<Rightarrow> int" where
  "round_half_even x =
     (let f = \<lfloor>x\<rfloor>; d = x - of_int f
      in if d < 1 / 2 then f else if 1 / 2 < d then f + 1 else if even f then f else f + 1)"

text \<open>The integer \<open>e\<close> with \<open>2 powi e \<le> q < 2 powi (e + 1)\<close>, for \<open>q > 0\<close>.\<close>

definition binary_exponent :: "rat \<Rightarrow> int" where
  "binary_exponent q =
     (let (a, b) = quotient_of q; k = bitlen a - bitlen b
      in if 2 powi k \<le> q then k else k - 1)"

text \<open>
  The double nearest to a non-negative rational, ties to even: 53 significant bits, the
  exponent not below \<open>-1022\<close> (subnormals), and an infinity from \<open>2 powi 1024\<close> on.
  ECMA-262 asks for this value for literals of up to 20 significant digits and allows a
  small deviation beyond; the engines round correctly everywhere, as here.
\<close>

definition to_double :: "bool \<Rightarrow> rat \<Rightarrow> jsnum" where
  "to_double neg q =
     (if q = 0 then Fin neg 0
      else
        let e = max (binary_exponent q) (- 1022);
            ulp = 2 powi (e - 52);
            r = of_int (round_half_even (q / ulp)) * ulp
        in if 2 powi 1024 \<le> r then Infty neg else Fin neg r)"

subsection \<open>\<^verbatim>\<open>Number(string)\<close>\<close>

definition binary_class :: "code_unit \<Rightarrow> bool" where
  "binary_class c \<longleftrightarrow> c = 0x30 \<or> c = 0x31"

definition octal_class :: "code_unit \<Rightarrow> bool" where
  "octal_class c \<longleftrightarrow> 0x30 \<le> c \<and> c \<le> 0x37"

definition hex_class :: "code_unit \<Rightarrow> bool" where
  "hex_class c \<longleftrightarrow>
     (0x30 \<le> c \<and> c \<le> 0x39) \<or> (0x61 \<le> c \<and> c \<le> 0x66) \<or> (0x41 \<le> c \<and> c \<le> 0x46)"

definition digit_value :: "code_unit \<Rightarrow> int" where
  "digit_value c =
     (if 0x30 \<le> c \<and> c \<le> 0x39 then uint c - 0x30
      else if 0x61 \<le> c \<and> c \<le> 0x66 then uint c - 0x61 + 10
      else uint c - 0x41 + 10)"

definition numeral_value :: "int \<Rightarrow> jsstring \<Rightarrow> int" where
  "numeral_value base ds = foldl (\<lambda>n c. n * base + digit_value c) 0 ds"

text \<open>NonDecimalIntegerLiteral: \<^verbatim>\<open>0x\<close>, \<^verbatim>\<open>0o\<close> or \<^verbatim>\<open>0b\<close> (either case) and at least one
  digit of that base.\<close>

definition nondecimal_literal :: "jsstring \<Rightarrow> int option" where
  "nondecimal_literal s =
     (case s of
        z # x # ds \<Rightarrow>
          if z \<noteq> 0x30 \<or> ds = [] then None
          else if (x = 0x78 \<or> x = 0x58) \<and> list_all hex_class ds
          then Some (numeral_value 16 ds)
          else if (x = 0x6F \<or> x = 0x4F) \<and> list_all octal_class ds
          then Some (numeral_value 8 ds)
          else if (x = 0x62 \<or> x = 0x42) \<and> list_all binary_class ds
          then Some (numeral_value 2 ds)
          else None
      | _ \<Rightarrow> None)"

definition decimal_digits :: "jsstring \<Rightarrow> bool" where
  "decimal_digits s \<longleftrightarrow> s \<noteq> [] \<and> list_all digit_class s"

text \<open>What follows the \<^verbatim>\<open>e\<close> or \<^verbatim>\<open>E\<close> of an ExponentPart: a SignedInteger.\<close>

definition signed_integer :: "jsstring \<Rightarrow> int option" where
  "signed_integer s =
     (case s of
        [] \<Rightarrow> None
      | c # r \<Rightarrow>
          if c = 0x2B then (if decimal_digits r then Some (numeral_value 10 r) else None)
          else if c = 0x2D
          then (if decimal_digits r then Some (- numeral_value 10 r) else None)
          else if decimal_digits s then Some (numeral_value 10 s) else None)"

text \<open>
  StrUnsignedDecimalLiteral other than \<^verbatim>\<open>Infinity\<close>: digits, an optional point and
  fraction digits, with a digit on at least one side of the point, and an optional
  exponent part. The result is the mathematical value of the literal.
\<close>

definition unsigned_decimal_literal :: "jsstring \<Rightarrow> rat option" where
  "unsigned_decimal_literal s =
     (let ip = takeWhile digit_class s;
          r1 = dropWhile digit_class s;
          fp = (case r1 of [] \<Rightarrow> [] | c # r \<Rightarrow> if c = 0x2E then takeWhile digit_class r else []);
          r2 = (case r1 of [] \<Rightarrow> [] | c # r \<Rightarrow> if c = 0x2E then dropWhile digit_class r else r1);
          mv = of_int (numeral_value 10 ip) + of_int (numeral_value 10 fp) / 10 ^ length fp
      in if ip = [] \<and> fp = [] then None
         else case r2 of
           [] \<Rightarrow> Some mv
         | c # r \<Rightarrow>
             if c = 0x65 \<or> c = 0x45
             then (case signed_integer r of None \<Rightarrow> None | Some e \<Rightarrow> Some (mv * 10 powi e))
             else None)"

text \<open>
  StringToNumber: the string without the white space around it is empty (\<open>+0\<close>), a
  non-decimal integer literal, an optionally signed \<^verbatim>\<open>Infinity\<close> or decimal literal, or
  anything else (NaN).
\<close>

definition Number :: "jsstring \<Rightarrow> jsnum" where
  "Number str =
     (let s = trim str
      in if s = [] then Fin False 0
         else case nondecimal_literal s of
           Some n \<Rightarrow> to_double False (of_int n)
         | None \<Rightarrow>
             let neg = (case s of [] \<Rightarrow> False | c # r \<Rightarrow> c = 0x2D);
                 u = (case s of [] \<Rightarrow> [] | c # r \<Rightarrow> if c = 0x2D \<or> c = 0x2B then r else s)
             in if u = ascii ''Infinity'' then Infty neg
                else (case unsigned_decimal_literal u of
                        None \<Rightarrow> NaN
                      | Some q \<Rightarrow> to_double neg q))"

section \<open>The form\<close>

text \<open>
  The state the handlers read and write: the form's \<^verbatim>\<open>data-was-submitted\<close> attribute;
  for each of the two inputs its value, its custom validity message (empty when the
  input is valid) and the text of the \<^verbatim>\<open>span\<close> after it; and what has been passed to
  \<^verbatim>\<open>console.log\<close>. The span is visible exactly when its input is invalid
  (\<^verbatim>\<open>peer-invalid:visible\<close>).
\<close>

record submission =
  name :: jsstring
  year :: jsnum

record form_state =
  was_submitted :: bool
  name_value :: jsstring
  name_validity :: jsstring
  name_text :: jsstring
  year_value :: jsstring
  year_validity :: jsstring
  year_text :: jsstring
  console :: "submission list"

text \<open>The rendered form: empty inputs, both valid, a no-break space in each span.\<close>

definition initial_form :: form_state where
  "initial_form =
     \<lparr>was_submitted = False,
      name_value = [], name_validity = [], name_text = [0xA0],
      year_value = [], year_validity = [], year_text = [0xA0],
      console = []\<rparr>"

definition name_visible :: "form_state \<Rightarrow> bool" where
  "name_visible s \<longleftrightarrow> name_validity s \<noteq> []"

definition year_visible :: "form_state \<Rightarrow> bool" where
  "year_visible s \<longleftrightarrow> year_validity s \<noteq> []"

subsection \<open>Reporting validity\<close>

text \<open>
  \<^verbatim>\<open>target.reportValidity()\<close> fires \<^verbatim>\<open>invalid\<close> at an input whose custom validity message
  is not empty; \<^verbatim>\<open>onInvalid$\<close> (lines 49 and 94) then copies the message into the span.
  The default action is prevented (\<^verbatim>\<open>preventdefault:invalid\<close>).
\<close>

definition name_onInvalid :: "form_state \<Rightarrow> form_state" where
  "name_onInvalid s = s\<lparr>name_text := name_validity s\<rparr>"

definition year_onInvalid :: "form_state \<Rightarrow> form_state" where
  "year_onInvalid s = s\<lparr>year_text := year_validity s\<rparr>"

definition name_reportValidity :: "form_state \<Rightarrow> form_state" where
  "name_reportValidity s = (if name_validity s \<noteq> [] then name_onInvalid s else s)"

definition year_reportValidity :: "form_state \<Rightarrow> form_state" where
  "year_reportValidity s = (if year_validity s \<noteq> [] then year_onInvalid s else s)"

definition name_setCustomValidity :: "jsstring \<Rightarrow> form_state \<Rightarrow> form_state" where
  "name_setCustomValidity m s = s\<lparr>name_validity := m\<rparr>"

definition year_setCustomValidity :: "jsstring \<Rightarrow> form_state \<Rightarrow> form_state" where
  "year_setCustomValidity m s = s\<lparr>year_validity := m\<rparr>"

text \<open>\<^verbatim>\<open>new FormData(form).get("name")\<close> and \<^verbatim>\<open>.get("year")\<close>.\<close>

definition formdata_name :: "form_state \<Rightarrow> jsstring" where
  "formdata_name s = to_scalar_values (name_value s)"

definition formdata_year :: "form_state \<Rightarrow> jsstring" where
  "formdata_year s = to_scalar_values (year_value s)"

subsection \<open>The Year handler (lines 64 to 92)\<close>

definition year_onInput :: "form_state \<Rightarrow> form_state" where
  "year_onInput s =
     (if \<not> was_submitted s then s
      else if length (trim (year_value s)) = 0
      then year_reportValidity (year_setCustomValidity (ascii ''Field is required'') s)
      else if \<not> matches year_regex (year_value s) \<or> isNaN (Number (year_value s))
      then year_reportValidity (year_setCustomValidity (ascii ''Field must be a number'') s)
      else if js_lt (Number (year_value s)) (Fin False 2000)
      then year_reportValidity
             (year_setCustomValidity (ascii ''Number must be greater or equal than 2000'') s)
      else if formdata_name s = ascii ''Newborn'' \<and> js_lt (Number (year_value s)) (Fin False 2024)
      then year_reportValidity
             (year_setCustomValidity (ascii ''Newborn can not be born before 2024'') s)
      else year_reportValidity (year_setCustomValidity [] s))"

subsection \<open>The Name handler (lines 30 to 47)\<close>

text \<open>Its last statement dispatches \<^verbatim>\<open>input\<close> at the Year input, which runs the Year
  handler before the Name handler returns.\<close>

definition name_onInput :: "form_state \<Rightarrow> form_state" where
  "name_onInput s =
     (if \<not> was_submitted s then s
      else
        let s1 =
          (if length (trim (name_value s)) = 0 \<or> \<not> matches name_regex (name_value s)
           then name_reportValidity (name_setCustomValidity (ascii ''Field is invalid'') s)
           else name_reportValidity (name_setCustomValidity [] s))
        in year_onInput s1)"

subsection \<open>Submission (lines 10 to 22)\<close>

text \<open>
  \<^verbatim>\<open>form.checkValidity()\<close> fires \<^verbatim>\<open>invalid\<close> at every invalid input, in document order,
  and is true when there is none. The inputs have no constraint other than the custom
  validity message.
\<close>

definition checkValidity :: "form_state \<Rightarrow> bool \<times> form_state" where
  "checkValidity s =
     (let s1 = (if name_validity s \<noteq> [] then name_onInvalid s else s);
          s2 = (if year_validity s1 \<noteq> [] then year_onInvalid s1 else s1)
      in (name_validity s = [] \<and> year_validity s = [], s2))"

definition onSubmit :: "form_state \<Rightarrow> form_state" where
  "onSubmit s =
     (let s1 = s\<lparr>was_submitted := True\<rparr>;
          s2 = year_onInput (name_onInput s1);
          (valid, s3) = checkValidity s2
      in if \<not> valid then s3
         else s3\<lparr>console := console s3 @
                  [\<lparr>name = formdata_name s3, year = Number (formdata_year s3)\<rparr>]\<rparr>)"

text \<open>
  A click on the submit button. The form has no \<^verbatim>\<open>novalidate\<close> attribute, so the
  browser first validates the inputs itself, as \<^verbatim>\<open>checkValidity\<close> does, and fires
  \<^verbatim>\<open>submit\<close>, which runs \<^verbatim>\<open>onSubmit$\<close>, only when it finds none invalid.
\<close>

definition click_submit :: "form_state \<Rightarrow> form_state" where
  "click_submit s =
     (let (valid, s1) = checkValidity s
      in if \<not> valid then s1 else onSubmit s1)"

subsection \<open>Events\<close>

text \<open>
  What the user can do: edit one of the two inputs, which sets its value and fires
  \<^verbatim>\<open>input\<close> at it, or click the submit button. A text input removes LF and CR from
  its value.
\<close>

datatype event = EditName jsstring | EditYear jsstring | Submit

definition strip_newlines :: "jsstring \<Rightarrow> jsstring" where
  "strip_newlines v = filter (\<lambda>c. c \<noteq> 0x000A \<and> c \<noteq> 0x000D) v"

fun step :: "form_state \<Rightarrow> event \<Rightarrow> form_state" where
  "step s (EditName v) = name_onInput (s\<lparr>name_value := strip_newlines v\<rparr>)"
| "step s (EditYear v) = year_onInput (s\<lparr>year_value := strip_newlines v\<rparr>)"
| "step s Submit = click_submit s"

definition run :: "form_state \<Rightarrow> event list \<Rightarrow> form_state" where
  "run s es = foldl step s es"

section \<open>The rules as the specification words them\<close>

text \<open>
  The Year rules of the specification, section 4.3, in its order: the message for a Name
  value \<open>nm\<close> and a Year value \<open>v\<close>. ``One or more ASCII digits'' is \<^const>\<open>decimal_digits\<close>;
  the Name value is the raw one.
\<close>

definition year_message :: "jsstring \<Rightarrow> jsstring \<Rightarrow> jsstring" where
  "year_message nm v =
     (if trim v = [] then ascii ''Field is required''
      else if \<not> decimal_digits v \<or> Number v = NaN then ascii ''Field must be a number''
      else if js_lt (Number v) (Fin False 2000)
      then ascii ''Number must be greater or equal than 2000''
      else if nm = ascii ''Newborn'' \<and> js_lt (Number v) (Fin False 2024)
      then ascii ''Newborn can not be born before 2024''
      else [])"

text \<open>``Starts with an uppercase ASCII letter'', read literally.\<close>

definition starts_with_upper :: "jsstring \<Rightarrow> bool" where
  "starts_with_upper v = (case v of [] \<Rightarrow> False | c # cs \<Rightarrow> upper_class c)"

text \<open>The Name rule, with what the regular expression asks of the rest of the value: no
  line terminator after the first letter.\<close>

definition name_message :: "jsstring \<Rightarrow> jsstring" where
  "name_message v =
     (if length (trim v) = 0 \<or> \<not> (starts_with_upper v \<and> list_all dot_class (tl v))
      then ascii ''Field is invalid'' else [])"

subsection \<open>Auxiliary notions\<close>

text \<open>A form that has been submitted before and now holds the two given values, its
  messages not yet recomputed.\<close>

definition submitted_form :: "jsstring \<Rightarrow> jsstring \<Rightarrow> form_state" where
  "submitted_form nm yr =
     initial_form\<lparr>was_submitted := True, name_value := nm, year_value := yr\<rparr>"

text \<open>Submission with the Year handler run once only, from the Name handler.\<close>

definition onSubmit_once :: "form_state \<Rightarrow> form_state" where
  "onSubmit_once s =
     (let s1 = s\<lparr>was_submitted := True\<rparr>;
          s2 = name_onInput s1;
          (valid, s3) = checkValidity s2
      in if \<not> valid then s3
         else s3\<lparr>console := console s3 @
                  [\<lparr>name = formdata_name s3, year = Number (formdata_year s3)\<rparr>]\<rparr>)"

text \<open>A code unit that is not a surrogate.\<close>

definition scalar_unit :: "code_unit \<Rightarrow> bool" where
  "scalar_unit c \<longleftrightarrow> \<not> is_leading_surrogate c \<and> \<not> is_trailing_surrogate c"

text \<open>A string with no unpaired surrogate: every leading surrogate is followed by a
  trailing one, and every trailing surrogate follows a leading one.\<close>

fun well_formed :: "jsstring \<Rightarrow> bool" where
  "well_formed [] = True"
| "well_formed [c] = (\<not> is_leading_surrogate c \<and> \<not> is_trailing_surrogate c)"
| "well_formed (c # d # r) =
     (if is_leading_surrogate c \<and> is_trailing_surrogate d then well_formed r
      else \<not> is_leading_surrogate c \<and> \<not> is_trailing_surrogate c \<and> well_formed (d # r))"

text \<open>
  What holds of every form reached from the rendered one: before the first submit both
  inputs are valid; after it each message is the one the rules give for the current
  values, and the region of an invalid input shows its message.
\<close>

definition consistent :: "form_state \<Rightarrow> bool" where
  "consistent s \<longleftrightarrow>
     (if was_submitted s
      then name_validity s = name_message (name_value s) \<and>
           year_validity s = year_message (name_value s) (year_value s) \<and>
           (name_validity s = [] \<or> name_text s = name_validity s) \<and>
           (year_validity s = [] \<or> year_text s = year_validity s)
      else name_validity s = [] \<and> year_validity s = [])"

text \<open>Setting an input's message and reporting it, in one step.\<close>

definition show_year :: "jsstring \<Rightarrow> form_state \<Rightarrow> form_state" where
  "show_year m s =
     (if m = [] then s\<lparr>year_validity := []\<rparr> else s\<lparr>year_validity := m, year_text := m\<rparr>)"

definition show_name :: "jsstring \<Rightarrow> form_state \<Rightarrow> form_state" where
  "show_name m s =
     (if m = [] then s\<lparr>name_validity := []\<rparr> else s\<lparr>name_validity := m, name_text := m\<rparr>)"

section \<open>Strings: trimming, matching, form data\<close>

lemma matches_star: "matches [(p, ZeroOrMore)] s \<longleftrightarrow> list_all p s"
  by (induction s) auto

lemma matches_year_regex: "matches year_regex v \<longleftrightarrow> decimal_digits v"
  by (cases v) (simp_all add: year_regex_def decimal_digits_def matches_star)

lemma matches_name_regex:
  "matches name_regex v \<longleftrightarrow> (\<exists>c cs. v = c # cs \<and> upper_class c \<and> list_all dot_class cs)"
  by (cases v) (simp_all add: name_regex_def matches_star)

lemma trim_empty_iff: "trim v = [] \<longleftrightarrow> list_all is_trimmed_char v"
proof
  assume a: "trim v = []"
  have "dropWhile is_trimmed_char v = []"
  proof (rule ccontr)
    assume n: "dropWhile is_trimmed_char v \<noteq> []"
    then have "\<not> is_trimmed_char (hd (dropWhile is_trimmed_char v))"
      by (rule hd_dropWhile)
    moreover from a have "\<forall>x\<in>set (dropWhile is_trimmed_char v). is_trimmed_char x"
      by (simp add: trim_def dropWhile_eq_Nil_conv)
    ultimately show False using n hd_in_set by blast
  qed
  then show "list_all is_trimmed_char v"
    by (simp add: dropWhile_eq_Nil_conv list_all_iff)
next
  assume "list_all is_trimmed_char v"
  then have "dropWhile is_trimmed_char v = []"
    by (simp add: dropWhile_eq_Nil_conv list_all_iff)
  then show "trim v = []"
    by (simp only: trim_def rev.simps dropWhile.simps)
qed

lemma trim_id:
  assumes "v \<noteq> []" "\<not> is_trimmed_char (hd v)" "\<not> is_trimmed_char (last v)"
  shows "trim v = v"
proof -
  from assms have a: "dropWhile is_trimmed_char v = v"
    by (cases v) simp_all
  from assms have "dropWhile is_trimmed_char (rev v) = rev v"
    by (cases "rev v") (simp_all add: last_rev[symmetric] hd_rev del: last_rev)
  with a show ?thesis by (simp add: trim_def)
qed

lemma digit_not_trimmed: "digit_class c \<Longrightarrow> \<not> is_trimmed_char c"
  by (auto simp: digit_class_def is_trimmed_char_def is_white_space_def is_line_terminator_def
      word_le_nat_alt)

lemma trim_digits: "decimal_digits v \<Longrightarrow> trim v = v"
  by (rule trim_id) (auto simp: decimal_digits_def list_all_iff intro!: digit_not_trimmed)


lemma to_scalar_values_id: "list_all scalar_unit s \<Longrightarrow> to_scalar_values s = s"
  by (induction s rule: to_scalar_values.induct) (auto simp: scalar_unit_def)

lemma to_scalar_values_inv:
  "list_all (\<lambda>c. scalar_unit c \<and> c \<noteq> 0xFFFD) (to_scalar_values s) \<Longrightarrow> to_scalar_values s = s"
  by (induction s rule: to_scalar_values.induct) (auto simp: scalar_unit_def split: if_splits)

lemma formdata_Newborn: "to_scalar_values s = ascii ''Newborn'' \<longleftrightarrow> s = ascii ''Newborn''"
proof
  assume a: "to_scalar_values s = ascii ''Newborn''"
  have "list_all (\<lambda>c. scalar_unit c \<and> c \<noteq> 0xFFFD) (ascii ''Newborn'')"
    by (simp add: ascii_def scalar_unit_def is_leading_surrogate_def is_trailing_surrogate_def)
  with a have "to_scalar_values s = s" using to_scalar_values_inv by metis
  with a show "s = ascii ''Newborn''" by simp
next
  assume "s = ascii ''Newborn''"
  then show "to_scalar_values s = ascii ''Newborn''"
    by (simp add: ascii_def is_leading_surrogate_def is_trailing_surrogate_def)
qed

lemma digit_scalar: "digit_class c \<Longrightarrow> scalar_unit c"
  by (auto simp: digit_class_def scalar_unit_def is_leading_surrogate_def
      is_trailing_surrogate_def word_le_nat_alt)

lemma to_scalar_values_digits: "decimal_digits v \<Longrightarrow> to_scalar_values v = v"
  by (rule to_scalar_values_id) (auto simp: decimal_digits_def list_all_iff intro: digit_scalar)

lemma replacement_not_surrogate:
  "\<not> is_leading_surrogate 0xFFFD" "\<not> is_trailing_surrogate 0xFFFD"
  by (simp_all add: is_leading_surrogate_def is_trailing_surrogate_def)

lemma to_scalar_values_fixed: "to_scalar_values v = v \<longleftrightarrow> well_formed v"
proof (induction v rule: to_scalar_values.induct)
  case 1
  then show ?case by simp
next
  case (2 c)
  then show ?case using replacement_not_surrogate by auto
next
  case (3 c d r)
  then show ?case using replacement_not_surrogate by auto
qed

section \<open>\<^verbatim>\<open>Number\<close> on digit strings\<close>

lemma digit_value_digit: "digit_class c \<Longrightarrow> 0 \<le> digit_value c \<and> digit_value c \<le> 9"
  by (auto simp: digit_class_def digit_value_def word_le_def)

lemma foldl_digits_nonneg:
  "0 \<le> n \<Longrightarrow> list_all digit_class v \<Longrightarrow> 0 \<le> foldl (\<lambda>n c. n * 10 + digit_value c) n v"
  by (induction v arbitrary: n) (auto simp: digit_value_digit)

lemma numeral_value_nonneg: "list_all digit_class v \<Longrightarrow> 0 \<le> numeral_value 10 v"
  by (simp add: numeral_value_def foldl_digits_nonneg)

lemma nondecimal_literal_digits: "decimal_digits v \<Longrightarrow> nondecimal_literal v = None"
  by (auto simp: nondecimal_literal_def decimal_digits_def digit_class_def word_le_nat_alt
      split: list.splits)

lemma unsigned_decimal_literal_digits:
  assumes "decimal_digits v"
  shows "unsigned_decimal_literal v = Some (of_int (numeral_value 10 v))"
proof -
  from assms have t: "takeWhile digit_class v = v" and d: "dropWhile digit_class v = []"
    by (simp_all add: decimal_digits_def list_all_iff)
  from assms have "v \<noteq> []" by (simp add: decimal_digits_def)
  then show ?thesis
    by (simp add: unsigned_decimal_literal_def t d numeral_value_def)
qed

lemma digits_not_signed:
  "decimal_digits v \<Longrightarrow> (case v of [] \<Rightarrow> [] | c # r \<Rightarrow> if c = 0x2D \<or> c = 0x2B then r else v) = v"
  by (auto simp: decimal_digits_def digit_class_def word_le_nat_alt split: list.splits)

lemma digits_not_negative:
  "decimal_digits v \<Longrightarrow> (case v of [] \<Rightarrow> False | c # r \<Rightarrow> c = 0x2D) = False"
  by (auto simp: decimal_digits_def digit_class_def word_le_nat_alt split: list.splits)

lemma digits_not_Infinity: "decimal_digits v \<Longrightarrow> v \<noteq> ascii ''Infinity''"
  by (auto simp: decimal_digits_def digit_class_def ascii_def word_le_nat_alt)

lemma Number_digits:
  assumes "decimal_digits v"
  shows "Number v = to_double False (of_int (numeral_value 10 v))"
proof -
  from assms have "trim v = v" "v \<noteq> []"
    by (simp_all add: trim_digits decimal_digits_def)
  with assms show ?thesis
    by (simp add: Number_def nondecimal_literal_digits digits_not_signed digits_not_negative
        digits_not_Infinity unsigned_decimal_literal_digits)
qed

lemma to_double_not_NaN: "to_double neg q \<noteq> NaN"
  by (simp add: to_double_def Let_def)

lemma round_half_even_int: "round_half_even (of_int m) = m"
  by (simp add: round_half_even_def)

lemma round_half_even_ge:
  assumes "of_int m \<le> x"
  shows "m \<le> round_half_even x"
proof -
  from assms have "m \<le> \<lfloor>x\<rfloor>" by (simp add: le_floor_iff)
  then show ?thesis by (simp add: round_half_even_def Let_def)
qed

lemma bitlen_one: "bitlen 1 = 1"
  by (simp add: bitlen_alt_def)

lemma binary_exponent_int:
  assumes "0 < n"
  shows "binary_exponent (of_int n) = bitlen n - 1"
proof -
  from assms have b: "1 \<le> bitlen n"
    by (simp add: bitlen_alt_def)
  from bitlen_bounds [OF assms] have "(2::int) ^ nat (bitlen n - 1) \<le> n" by simp
  then have "(of_int ((2::int) ^ nat (bitlen n - 1)) :: rat) \<le> of_int n"
    by (simp only: of_int_le_iff)
  then have "(2::rat) powi (bitlen n - 1) \<le> of_int n"
    using b by (simp add: power_int_def)
  then show ?thesis
    by (simp add: binary_exponent_def bitlen_one)
qed

lemma to_double_int_exact:
  assumes "0 \<le> n" "n < 2 ^ 53"
  shows "to_double neg (of_int n) = Fin neg (of_int n)"
proof (cases "n = 0")
  case True
  then show ?thesis by (simp add: to_double_def)
next
  case False
  with assms have pos: "0 < n" by simp
  define e where "e = bitlen n - 1"
  from pos have e0: "0 \<le> e" by (simp add: e_def bitlen_alt_def)
  have e52: "e \<le> 52"
  proof (rule ccontr)
    assume "\<not> e \<le> 52"
    then have "53 \<le> nat e" by simp
    then have "(2::int) ^ 53 \<le> 2 ^ nat e" by (rule power_increasing) simp
    moreover from bitlen_bounds [OF pos] have "(2::int) ^ nat e \<le> n" by (simp add: e_def)
    ultimately show False using assms by simp
  qed
  define k where "k = nat (52 - e)"
  have ulp: "(2::rat) powi (e - 52) = 1 / 2 ^ k"
    using e52 by (cases "e = 52") (simp_all add: power_int_def k_def field_simps)
  have q: "(of_int n :: rat) / (1 / 2 ^ k) = of_int (n * 2 ^ k)"
    by simp
  have small: "\<not> (2::rat) powi 1024 \<le> of_int n"
  proof -
    from assms(2) have "n < 2 ^ 1024"
      by (rule less_le_trans) simp
    then have "(of_int n :: rat) < of_int (2 ^ 1024)" by (simp only: of_int_less_iff)
    then show ?thesis by (simp add: power_int_def)
  qed
  have m: "max e (- 1022) = e" using e0 by simp
  have nz: "(of_int n :: rat) \<noteq> 0" using pos by simp
  have r: "of_int (round_half_even (of_int n / 2 powi (e - 52))) * 2 powi (e - 52)
           = (of_int n :: rat)"
  proof -
    have "round_half_even (of_int n / 2 powi (e - 52)) = n * 2 ^ k"
      by (simp only: ulp q round_half_even_int)
    then show ?thesis by (simp add: ulp)
  qed
  show ?thesis
    by (simp only: to_double_def nz if_False Let_def binary_exponent_int [OF pos]
        e_def [symmetric] m r small)
qed

lemma to_double_int_large:
  assumes "2 ^ 53 \<le> n"
  shows "to_double neg (of_int n) = Infty neg \<or>
         (\<exists>r. to_double neg (of_int n) = Fin neg r \<and> 2 ^ 53 \<le> r)"
proof -
  from assms have pos: "0 < n"
    by (rule less_le_trans [rotated]) simp
  define e where "e = bitlen n - 1"
  have e53: "53 \<le> e"
  proof (rule ccontr)
    assume "\<not> 53 \<le> e"
    then have "bitlen n \<le> 53" by (simp add: e_def)
    then have "nat (bitlen n) \<le> 53" by simp
    then have "(2::int) ^ nat (bitlen n) \<le> 2 ^ 53" by (rule power_increasing) simp
    moreover from bitlen_bounds [OF pos] have "n < 2 ^ nat (bitlen n)" by simp
    ultimately show False using assms by simp
  qed
  define u :: rat where "u = 2 ^ nat (e - 52)"
  have upos: "0 < u" by (simp add: u_def)
  have ulp: "(2::rat) powi (e - 52) = u"
    using e53 by (simp add: power_int_def u_def)
  have low: "(2::rat) ^ nat e \<le> of_int n"
  proof -
    from bitlen_bounds [OF pos] have "(2::int) ^ nat e \<le> n" by (simp add: e_def)
    then have "(of_int ((2::int) ^ nat e) :: rat) \<le> of_int n" by (simp only: of_int_le_iff)
    then show ?thesis by simp
  qed
  have split: "(2::rat) ^ nat e = 2 ^ 52 * u"
  proof -
    from e53 have "nat e = 52 + nat (e - 52)" by simp
    then show ?thesis by (simp add: u_def power_add)
  qed
  have "(of_int (2 ^ 52) :: rat) \<le> of_int n / u"
    using low upos by (simp add: split pos_le_divide_eq)
  then have "2 ^ 52 \<le> round_half_even (of_int n / u)"
    by (rule round_half_even_ge)
  then have "(of_int (2 ^ 52) :: rat) \<le> of_int (round_half_even (of_int n / u))"
    by (simp only: of_int_le_iff)
  then have "(2::rat) ^ 52 * u \<le> of_int (round_half_even (of_int n / u)) * u"
    using upos by simp
  moreover have "(2::rat) ^ 53 \<le> 2 ^ 52 * u"
  proof -
    from e53 have "53 \<le> nat e" by simp
    then have "(2::rat) ^ 53 \<le> 2 ^ nat e" by (rule power_increasing) simp
    then show ?thesis by (simp only: split)
  qed
  ultimately have r: "(2::rat) ^ 53 \<le> of_int (round_half_even (of_int n / u)) * u"
    by (rule order_trans [rotated])
  have m: "max e (- 1022) = e" using e53 by simp
  have nz: "(of_int n :: rat) \<noteq> 0" using pos by simp
  define r where "r = of_int (round_half_even (of_int n / u)) * u"
  have "to_double neg (of_int n) = (if 2 powi 1024 \<le> r then Infty neg else Fin neg r)"
    by (simp only: to_double_def nz if_False Let_def binary_exponent_int [OF pos]
        e_def [symmetric] m ulp r_def)
  moreover have "2 ^ 53 \<le> r" using r by (simp only: r_def)
  ultimately show ?thesis by simp
qed

lemma js_lt_to_double_int:
  assumes "0 \<le> n" "0 < k" "k \<le> 2 ^ 53"
  shows "js_lt (to_double False (of_int n)) (Fin False (of_int k)) \<longleftrightarrow> n < k"
proof (cases "n < 2 ^ 53")
  case True
  with assms show ?thesis by (simp add: to_double_int_exact)
next
  case False
  then have big: "2 ^ 53 \<le> n" by simp
  from assms have "(of_int k :: rat) \<le> of_int (2 ^ 53)" by (simp only: of_int_le_iff)
  then have k: "(of_int k :: rat) \<le> 2 ^ 53" by simp
  from to_double_int_large [OF big, of False] k big assms show ?thesis
    by auto
qed

section \<open>The handlers in closed form\<close>

lemma year_report: "year_reportValidity (year_setCustomValidity m s) = show_year m s"
  by (simp add: year_reportValidity_def year_setCustomValidity_def year_onInvalid_def show_year_def)

lemma name_report: "name_reportValidity (name_setCustomValidity m s) = show_name m s"
  by (simp add: name_reportValidity_def name_setCustomValidity_def name_onInvalid_def show_name_def)

lemma year_onInput_eq:
  "year_onInput s =
     (if was_submitted s then show_year (year_message (name_value s) (year_value s)) s else s)"
  by (simp add: year_onInput_def year_message_def year_report matches_year_regex isNaN_def
      formdata_name_def formdata_Newborn)

lemma matches_name_regex_alt:
  "matches name_regex v \<longleftrightarrow> starts_with_upper v \<and> list_all dot_class (tl v)"
  by (cases v) (simp_all add: matches_name_regex starts_with_upper_def)

lemma name_onInput_eq:
  "name_onInput s =
     (if was_submitted s then year_onInput (show_name (name_message (name_value s)) s) else s)"
  by (simp add: name_onInput_def name_message_def name_report matches_name_regex_alt)

lemma messages_nonempty:
  "ascii ''Field is required'' \<noteq> []" "ascii ''Field must be a number'' \<noteq> []"
  "ascii ''Number must be greater or equal than 2000'' \<noteq> []"
  "ascii ''Newborn can not be born before 2024'' \<noteq> []"
  "ascii ''Field is invalid'' \<noteq> []"
  by (simp_all add: ascii_def)

lemma Number_digits_not_NaN: "decimal_digits v \<Longrightarrow> Number v \<noteq> NaN"
  by (simp add: Number_digits to_double_not_NaN)

lemma js_lt_Number_digits:
  assumes "decimal_digits v" "0 < k" "k \<le> 2 ^ 53"
  shows "js_lt (Number v) (Fin False (of_int k)) \<longleftrightarrow> numeral_value 10 v < k"
proof -
  from assms(1) have "0 \<le> numeral_value 10 v"
    by (simp add: decimal_digits_def numeral_value_nonneg)
  then show ?thesis
    using assms by (simp only: Number_digits js_lt_to_double_int)
qed

lemma year_message_digits:
  assumes "decimal_digits v"
  shows "year_message nm v =
     (if numeral_value 10 v < 2000 then ascii ''Number must be greater or equal than 2000''
      else if nm = ascii ''Newborn'' \<and> numeral_value 10 v < 2024
      then ascii ''Newborn can not be born before 2024''
      else [])"
proof -
  from assms have t: "trim v \<noteq> []" by (simp add: trim_digits decimal_digits_def)
  have a: "js_lt (Number v) (Fin False 2000) \<longleftrightarrow> numeral_value 10 v < 2000"
    using js_lt_Number_digits [OF assms, of 2000] by simp
  have b: "js_lt (Number v) (Fin False 2024) \<longleftrightarrow> numeral_value 10 v < 2024"
    using js_lt_Number_digits [OF assms, of 2024] by simp
  show ?thesis
    by (simp only: year_message_def t assms Number_digits_not_NaN a b) simp
qed

lemma year_message_empty_digits: "year_message nm v = [] \<Longrightarrow> decimal_digits v"
  by (auto simp: year_message_def messages_nonempty split: if_splits)

lemma show_year_fields [simp]:
  "was_submitted (show_year m s) = was_submitted s"
  "name_value (show_year m s) = name_value s"
  "year_value (show_year m s) = year_value s"
  "name_validity (show_year m s) = name_validity s"
  "name_text (show_year m s) = name_text s"
  "year_validity (show_year m s) = m"
  "console (show_year m s) = console s"
  by (simp_all add: show_year_def)

lemma show_name_fields [simp]:
  "was_submitted (show_name m s) = was_submitted s"
  "name_value (show_name m s) = name_value s"
  "year_value (show_name m s) = year_value s"
  "year_validity (show_name m s) = year_validity s"
  "year_text (show_name m s) = year_text s"
  "name_validity (show_name m s) = m"
  "console (show_name m s) = console s"
  by (simp_all add: show_name_def)

lemma show_year_idem [simp]: "show_year m (show_year m s) = show_year m s"
  by (simp add: show_year_def)

lemma show_name_idem [simp]: "show_name m (show_name m s) = show_name m s"
  by (simp add: show_name_def)

lemma show_name_year: "show_name m (show_year k s) = show_year k (show_name m s)"
  by (simp add: show_year_def show_name_def)

lemma year_onInput_idem: "year_onInput (year_onInput s) = year_onInput s"
proof (cases "was_submitted s")
  case True
  then have "year_onInput s = show_year (year_message (name_value s) (year_value s)) s"
    by (simp only: year_onInput_eq if_True)
  moreover have "year_onInput (show_year (year_message (name_value s) (year_value s)) s)
      = show_year (year_message (name_value s) (year_value s)) s"
    using True by (simp only: year_onInput_eq [of "show_year m s" for m] show_year_fields if_True show_year_idem)
  ultimately show ?thesis by simp
next
  case False
  then show ?thesis by (simp only: year_onInput_eq [of s] if_False)
qed

lemma name_onInput_submitted:
  "was_submitted s \<Longrightarrow> name_onInput s =
     show_year (year_message (name_value s) (year_value s)) (show_name (name_message (name_value s)) s)"
  by (simp only: name_onInput_eq [of s] year_onInput_eq [of "show_name m s" for m] show_name_fields if_True)

lemma year_name_onInput: "year_onInput (name_onInput s) = name_onInput s"
proof (cases "was_submitted s")
  case True
  then show ?thesis by (simp only: name_onInput_eq [of s] if_True year_onInput_idem)
next
  case False
  then show ?thesis by (simp only: name_onInput_eq [of s] year_onInput_eq [of s] if_False)
qed

lemma name_onInput_idem: "name_onInput (name_onInput s) = name_onInput s"
proof (cases "was_submitted s")
  case True
  let ?t = "show_year (year_message (name_value s) (year_value s)) (show_name (name_message (name_value s)) s)"
  have w: "was_submitted ?t" using True by simp
  have "name_onInput ?t = ?t"
    by (simp add: name_onInput_submitted [OF w] show_name_year)
  then show ?thesis by (simp only: name_onInput_submitted [OF True])
next
  case False
  then show ?thesis by (simp only: name_onInput_eq [of s] if_False)
qed

section \<open>Submission and runs\<close>

lemma checkValidity_show:
  "checkValidity (show_year k (show_name m s)) =
     (m = [] \<and> k = [], show_year k (show_name m s))"
  by (simp add: checkValidity_def Let_def show_year_def show_name_def name_onInvalid_def
      year_onInvalid_def)

lemma onSubmit_once_eq: "onSubmit s = onSubmit_once s"
  by (simp only: onSubmit_def onSubmit_once_def year_name_onInput)

lemma onSubmit_eq:
  "onSubmit s =
     (let s2 = show_year (year_message (name_value s) (year_value s))
                 (show_name (name_message (name_value s)) (s\<lparr>was_submitted := True\<rparr>))
      in if name_message (name_value s) = [] \<and> year_message (name_value s) (year_value s) = []
         then s2\<lparr>console := console s @
                [\<lparr>name = to_scalar_values (name_value s), year = Number (year_value s)\<rparr>]\<rparr>
         else s2)"
proof -
  let ?s1 = "s\<lparr>was_submitted := True\<rparr>"
  have w: "was_submitted ?s1" by simp
  have n: "name_onInput ?s1 = show_year (year_message (name_value s) (year_value s))
                 (show_name (name_message (name_value s)) ?s1)"
    using name_onInput_submitted [OF w] by simp
  show ?thesis
  proof (cases "year_message (name_value s) (year_value s) = []")
    case True
    then have "to_scalar_values (year_value s) = year_value s"
      by (intro to_scalar_values_digits year_message_empty_digits)
    then show ?thesis
      by (simp add: onSubmit_def year_name_onInput n checkValidity_show Let_def
          formdata_name_def formdata_year_def)
  next
    case False
    then show ?thesis
      by (simp add: onSubmit_def year_name_onInput n checkValidity_show Let_def)
  qed
qed

lemma onInput_unsubmitted:
  "\<not> was_submitted s \<Longrightarrow> name_onInput s = s"
  "\<not> was_submitted s \<Longrightarrow> year_onInput s = s"
  by (simp_all add: name_onInput_def year_onInput_def)

lemma step_unsubmitted:
  "\<not> was_submitted s \<Longrightarrow> step s (EditName v) = s\<lparr>name_value := strip_newlines v\<rparr>"
  "\<not> was_submitted s \<Longrightarrow> step s (EditYear v) = s\<lparr>year_value := strip_newlines v\<rparr>"
  by (simp_all add: name_onInput_def year_onInput_def)

lemma checkValidity_valid:
  "name_validity s = [] \<Longrightarrow> year_validity s = [] \<Longrightarrow> checkValidity s = (True, s)"
  by (simp add: checkValidity_def)

lemma checkValidity_invalid:
  "name_validity s \<noteq> [] \<or> year_validity s \<noteq> [] \<Longrightarrow>
     checkValidity s =
       (False, show_year (year_validity s) (show_name (name_validity s) s))"
  by (auto simp: checkValidity_def Let_def show_year_def show_name_def name_onInvalid_def
      year_onInvalid_def)

lemma click_submit_eq:
  "click_submit s =
     (if name_validity s = [] \<and> year_validity s = [] then onSubmit s
      else show_year (year_validity s) (show_name (name_validity s) s))"
proof (cases "name_validity s = [] \<and> year_validity s = []")
  case True
  then show ?thesis by (simp add: click_submit_def checkValidity_valid)
next
  case False
  then have "name_validity s \<noteq> [] \<or> year_validity s \<noteq> []" by simp
  from checkValidity_invalid [OF this] have
    "click_submit s = show_year (year_validity s) (show_name (name_validity s) s)"
    by (simp add: click_submit_def)
  then show ?thesis by (simp only: False if_False)
qed

lemma was_submitted_onSubmit: "was_submitted (onSubmit s)"
  by (simp add: onSubmit_eq Let_def)

lemma was_submitted_step:
  "was_submitted (step s e) \<longleftrightarrow>
     was_submitted s \<or> (e = Submit \<and> name_validity s = [] \<and> year_validity s = [])"
proof (cases e)
  case (EditName v)
  then show ?thesis by (simp add: name_onInput_eq year_onInput_eq)
next
  case (EditYear v)
  then show ?thesis by (simp add: year_onInput_eq)
next
  case Submit
  then show ?thesis by (auto simp: click_submit_eq was_submitted_onSubmit)
qed

lemma run_Cons: "run s (e # es) = run (step s e) es"
  by (simp add: run_def)

lemma run_Nil: "run s [] = s"
  by (simp add: run_def)

lemma was_submitted_run_mono: "was_submitted s \<Longrightarrow> was_submitted (run s es)"
  by (induction es arbitrary: s) (simp_all add: run_Nil run_Cons was_submitted_step)

lemma console_step:
  "console (step s e) = console s \<or>
   (\<exists>v. decimal_digits v \<and>
        console (step s e) = console s @ [\<lparr>name = to_scalar_values (name_value s), year = Number v\<rparr>])"
proof (cases e)
  case (EditName v)
  then show ?thesis by (simp add: name_onInput_eq year_onInput_eq)
next
  case (EditYear v)
  then show ?thesis by (simp add: year_onInput_eq)
next
  case Submit
  then show ?thesis
    by (auto simp: click_submit_eq onSubmit_eq Let_def dest: year_message_empty_digits)
qed

lemma console_run_years:
  "\<forall>r\<in>set (console s). year r \<noteq> NaN \<Longrightarrow> \<forall>r\<in>set (console (run s es)). year r \<noteq> NaN"
proof (induction es arbitrary: s)
  case Nil
  then show ?case by (simp add: run_Nil)
next
  case (Cons e es)
  from console_step [of s e] Cons.prems have "\<forall>r\<in>set (console (step s e)). year r \<noteq> NaN"
    by (auto simp: Number_digits_not_NaN)
  then show ?case using Cons.IH [of "step s e"] by (simp add: run_Cons)
qed

lemma run_unsubmitted:
  "\<not> was_submitted s \<Longrightarrow> Submit \<notin> set es \<Longrightarrow>
     \<not> was_submitted (run s es) \<and>
     name_validity (run s es) = name_validity s \<and> year_validity (run s es) = year_validity s \<and>
     name_text (run s es) = name_text s \<and> year_text (run s es) = year_text s \<and>
     console (run s es) = console s"
proof (induction es arbitrary: s)
  case Nil
  then show ?case by (simp add: run_Nil)
next
  case (Cons e es)
  from Cons.prems have e: "e \<noteq> Submit" and es: "Submit \<notin> set es" by auto
  from e Cons.prems(1) have st:
    "\<not> was_submitted (step s e) \<and>
     name_validity (step s e) = name_validity s \<and> year_validity (step s e) = year_validity s \<and>
     name_text (step s e) = name_text s \<and> year_text (step s e) = year_text s \<and>
     console (step s e) = console s"
    by (cases e) (simp_all add: onInput_unsubmitted)
  then have "\<not> was_submitted (step s e)" by simp
  from Cons.IH [OF this es] st show ?case by (simp add: run_Cons)
qed

lemma edit_name_submitted:
  assumes "was_submitted s"
  shows "was_submitted (step s (EditName v))"
    and "name_value (step s (EditName v)) = strip_newlines v"
    and "name_validity (step s (EditName v)) = name_message (strip_newlines v)"
    and "year_validity (step s (EditName v)) = year_message (strip_newlines v) (year_value s)"
  using assms by (simp_all add: name_onInput_submitted)

lemma consistent_initial: "consistent initial_form"
  by (simp add: consistent_def initial_form_def)

lemma consistent_onSubmit: "consistent (onSubmit s)"
  by (simp add: consistent_def onSubmit_eq Let_def show_year_def show_name_def)

lemma click_submit_consistent:
  assumes "consistent s"
  shows "click_submit s = onSubmit s"
proof (cases "name_validity s = [] \<and> year_validity s = []")
  case True
  then show ?thesis by (simp add: click_submit_eq)
next
  case False
  with assms have w: "was_submitted s"
    by (auto simp: consistent_def split: if_splits)
  then have u: "s\<lparr>was_submitted := True\<rparr> = s" by simp
  from assms w have c:
    "name_validity s = name_message (name_value s)"
    "year_validity s = year_message (name_value s) (year_value s)"
    by (simp_all add: consistent_def)
  have b: "click_submit s = show_year (year_validity s) (show_name (name_validity s) s)"
    by (simp only: click_submit_eq False if_False)
  from False have
    "\<not> (name_message (name_value s) = [] \<and> year_message (name_value s) (year_value s) = [])"
    by (simp only: c simp_thms)
  then have "onSubmit s =
      show_year (year_message (name_value s) (year_value s))
        (show_name (name_message (name_value s)) (s\<lparr>was_submitted := True\<rparr>))"
    by (simp add: onSubmit_eq Let_def)
  then have "onSubmit s = show_year (year_validity s) (show_name (name_validity s) s)"
    by (simp only: u c [symmetric])
  with b show ?thesis by simp
qed

lemma consistent_step:
  assumes "consistent s"
  shows "consistent (step s e)"
proof (cases e)
  case (EditName v)
  with assms show ?thesis
    by (auto simp: consistent_def name_onInput_eq year_onInput_eq show_year_def show_name_def)
next
  case (EditYear v)
  with assms show ?thesis
    by (auto simp: consistent_def year_onInput_eq show_year_def)
next
  case Submit
  with assms show ?thesis
    by (simp add: click_submit_consistent consistent_onSubmit)
qed

lemma consistent_run: "consistent s \<Longrightarrow> consistent (run s es)"
  by (induction es arbitrary: s) (simp_all add: run_Nil run_Cons consistent_step)

lemma was_submitted_run:
  "consistent s \<Longrightarrow> was_submitted (run s es) \<longleftrightarrow> was_submitted s \<or> Submit \<in> set es"
proof (induction es arbitrary: s)
  case Nil
  then show ?case by (simp add: run_Nil)
next
  case (Cons e es)
  from Cons.prems have "consistent (step s e)" by (rule consistent_step)
  from Cons.IH [OF this] have
    "was_submitted (run s (e # es)) \<longleftrightarrow> was_submitted (step s e) \<or> Submit \<in> set es"
    by (simp add: run_Cons)
  moreover from Cons.prems have
    "was_submitted (step s e) \<longleftrightarrow> was_submitted s \<or> e = Submit"
    by (auto simp: was_submitted_step consistent_def split: if_splits)
  ultimately show ?case by auto
qed

lemma year_message_cong:
  "(n1 = ascii ''Newborn'' \<longleftrightarrow> n2 = ascii ''Newborn'') \<Longrightarrow>
     year_message n1 v = year_message n2 v"
  by (simp add: year_message_def)

lemma year_message_not_digits:
  assumes "length (trim v) \<noteq> 0" and "\<exists>c\<in>set v. \<not> digit_class c"
  shows "year_message nm v = ascii ''Field must be a number''"
proof -
  from assms(2) have "\<not> decimal_digits v"
    by (auto simp: decimal_digits_def list_all_iff)
  with assms(1) show ?thesis by (simp add: year_message_def)
qed

section \<open>Concrete values\<close>

lemma submitted_form_fields [simp]:
  "was_submitted (submitted_form nm yr)"
  "name_value (submitted_form nm yr) = nm"
  "year_value (submitted_form nm yr) = yr"
  "name_validity (submitted_form nm yr) = []"
  "year_validity (submitted_form nm yr) = []"
  "console (submitted_form nm yr) = []"
  by (simp_all add: submitted_form_def initial_form_def)

lemma digits_2023: "decimal_digits (ascii ''2023'')"
  by (simp add: decimal_digits_def digit_class_def ascii_def)

lemma value_2023: "numeral_value 10 (ascii ''2023'') = 2023"
  by (simp add: numeral_value_def digit_value_def ascii_def)

lemma digits_2024: "decimal_digits (ascii ''2024'')"
  by (simp add: decimal_digits_def digit_class_def ascii_def)

lemma value_2024: "numeral_value 10 (ascii ''2024'') = 2024"
  by (simp add: numeral_value_def digit_value_def ascii_def)

lemma Number_2024: "Number (ascii ''2024'') = Fin False 2024"
  using to_double_int_exact [of 2024 False]
  by (simp add: Number_digits digits_2024 value_2024)

lemma year_message_Newborn_2023:
  "year_message (ascii ''Newborn'') (ascii ''2023'') =
     ascii ''Newborn can not be born before 2024''"
  by (simp add: year_message_digits digits_2023 value_2023)

lemma year_message_Newborn_2024: "year_message (ascii ''Newborn'') (ascii ''2024'') = []"
  by (simp add: year_message_digits digits_2024 value_2024)

lemma year_message_other_2024: "nm \<noteq> ascii ''Newborn'' \<Longrightarrow> year_message nm (ascii ''2024'') = []"
  by (simp add: year_message_digits digits_2024 value_2024)

lemma name_message_Newborn: "name_message (ascii ''Newborn'') = []"
  by (simp add: name_message_def trim_def starts_with_upper_def upper_class_def dot_class_def
      is_trimmed_char_def is_white_space_def is_line_terminator_def ascii_def)

lemma name_message_alice: "name_message (ascii ''alice'') = ascii ''Field is invalid''"
  by (simp add: name_message_def starts_with_upper_def upper_class_def ascii_def)

lemma name_message_separator: "name_message [0x41, 0x2028] = ascii ''Field is invalid''"
  by (simp add: name_message_def starts_with_upper_def upper_class_def dot_class_def
      is_line_terminator_def)

lemma trim_separator: "trim [0x41, 0x2028] = [0x41]"
  by (simp add: trim_def is_trimmed_char_def is_white_space_def is_line_terminator_def)

lemma to_double_2005: "to_double False 2005 = Fin False 2005"
  using to_double_int_exact [of 2005 False] by simp

lemma to_double_2000: "to_double False 2000 = Fin False 2000"
  using to_double_int_exact [of 2000 False] by simp

lemmas Number_eval = Number_def trim_def is_trimmed_char_def is_white_space_def
  is_line_terminator_def nondecimal_literal_def unsigned_decimal_literal_def signed_integer_def
  decimal_digits_def digit_class_def numeral_value_def digit_value_def ascii_def

lemma Number_space_2005: "Number (ascii '' 2005'') = Fin False 2005"
  by (simp add: Number_eval to_double_2005)

lemma Number_plus_2005: "Number (ascii ''+2005'') = Fin False 2005"
  by (simp add: Number_eval to_double_2005)

lemma Number_2e3: "Number (ascii ''2e3'') = Fin False 2000"
  by (simp add: Number_eval to_double_2000)

lemma not_digits_examples:
  "length (trim (ascii '' 2005'')) \<noteq> 0" "\<exists>c\<in>set (ascii '' 2005''). \<not> digit_class c"
  "length (trim (ascii ''+2005'')) \<noteq> 0" "\<exists>c\<in>set (ascii ''+2005''). \<not> digit_class c"
  "length (trim (ascii ''2e3'')) \<noteq> 0" "\<exists>c\<in>set (ascii ''2e3''). \<not> digit_class c"
  by (simp_all add: trim_def is_trimmed_char_def is_white_space_def is_line_terminator_def
      digit_class_def ascii_def)

lemma not_Newborn: "ascii ''alice'' \<noteq> ascii ''Newborn''" "[] \<noteq> ascii ''Newborn''"
  by (simp_all add: ascii_def)

lemma year_message_other_2023:
  "nm \<noteq> ascii ''Newborn'' \<Longrightarrow> year_message nm (ascii ''2023'') = []"
  by (simp add: year_message_digits digits_2023 value_2023)

lemma year_message_examples:
  "year_message nm (ascii '' 2005'') = ascii ''Field must be a number''"
  "year_message nm (ascii ''+2005'') = ascii ''Field must be a number''"
  "year_message nm (ascii ''2e3'') = ascii ''Field must be a number''"
  by (rule year_message_not_digits, rule not_digits_examples, rule not_digits_examples)+

section \<open>The claims\<close>

subsection \<open>The Year rules\<close>

text \<open>
  \<^bold>\<open>C1.\<close> Once the form has been submitted, an input event on the Year field leaves as its
  validation message the message of the first rule that applies, in this order: the
  trimmed value is empty (``Field is required''); the value is not one or more ASCII
  digits, or \<^verbatim>\<open>Number\<close> of it is NaN (``Field must be a number''); the number is below
  2000; the Name field's raw value is exactly ``Newborn'' and the number is below 2024;
  otherwise the empty message. This holds for the handler on every state, and so for
  every edit of the Year field, whatever the two values are. On a value of digits the
  number compared with 2000 and 2024 is the value's decimal value: rounding to a double
  does not change either comparison.
\<close>

theorem year_rules_in_order:
  assumes "was_submitted s"
  shows "year_validity (year_onInput s) = year_message (name_value s) (year_value s) \<and>
         year_validity (step s (EditYear v)) = year_message (name_value s) (strip_newlines v) \<and>
         (decimal_digits (year_value s) \<longrightarrow>
            year_validity (year_onInput s) =
              (if numeral_value 10 (year_value s) < 2000
               then ascii ''Number must be greater or equal than 2000''
               else if name_value s = ascii ''Newborn'' \<and> numeral_value 10 (year_value s) < 2024
               then ascii ''Newborn can not be born before 2024''
               else []))"
  using assms by (simp add: year_onInput_eq year_message_digits)

theorem year_rules_in_order_witness:
  "was_submitted (submitted_form (ascii ''Newborn'') (ascii ''2023'')) \<and>
   year_validity (year_onInput (submitted_form (ascii ''Newborn'') (ascii ''2023''))) =
     ascii ''Newborn can not be born before 2024''"
  using year_rules_in_order [of "submitted_form (ascii ''Newborn'') (ascii ''2023'')"]
  by (simp add: year_message_Newborn_2023)

subsection \<open>The Name rule\<close>

text \<open>
  \<^bold>\<open>C2\<close>, as the code has it. Once the form has been submitted, an input event on the Name
  field sets the message ``Field is invalid'' exactly when the trimmed value has length 0
  or the value is not an uppercase ASCII letter followed only by code units that are not
  line terminators; otherwise it sets the empty message. An empty value and a value that
  fails the pattern get the same message.
\<close>

theorem name_rule:
  assumes "was_submitted s"
  shows "name_validity (name_onInput s) = name_message (name_value s) \<and>
         name_validity (step s (EditName v)) = name_message (strip_newlines v)"
  using assms by (simp add: name_onInput_submitted)

theorem name_rule_witness:
  "was_submitted (submitted_form (ascii ''alice'') []) \<and>
   name_validity (name_onInput (submitted_form (ascii ''alice'') [])) =
     ascii ''Field is invalid'' \<and>
   name_validity (name_onInput (submitted_form [] [])) = ascii ''Field is invalid'' \<and>
   name_validity (name_onInput (submitted_form (ascii ''Newborn'') [])) = []"
  using name_rule [of "submitted_form (ascii ''alice'') []"]
    name_rule [of "submitted_form [] []"]
    name_rule [of "submitted_form (ascii ''Newborn'') []"]
  by (simp add: name_message_alice name_message_Newborn)
    (simp add: name_message_def trim_def)

text \<open>
  \<^bold>\<open>C2\<close>, as it is worded, fails. After a submit attempt the Name field is given the
  letter A followed by U+2028 (LINE SEPARATOR, which a text input keeps). The trimmed value
  is not empty and the value starts with an uppercase ASCII letter, yet the message is
  ``Field is invalid'': \<^verbatim>\<open>.\<close> does not match a line terminator, so \<^verbatim>\<open>/^[A-Z].*$/\<close> does not
  reach the end of the value.
\<close>

theorem name_rule_as_worded_fails:
  "was_submitted (run initial_form [Submit, EditName [0x41, 0x2028]]) \<and>
   name_value (run initial_form [Submit, EditName [0x41, 0x2028]]) = [0x41, 0x2028] \<and>
   length (trim [0x41, 0x2028]) \<noteq> 0 \<and>
   starts_with_upper [0x41, 0x2028] \<and>
   name_validity (run initial_form [Submit, EditName [0x41, 0x2028]]) =
     ascii ''Field is invalid''"
proof -
  have s: "was_submitted (step initial_form Submit)"
    by (simp only: was_submitted_step) (simp add: initial_form_def)
  have n: "strip_newlines [0x41, 0x2028] = [0x41, 0x2028]"
    by (simp add: strip_newlines_def)
  have r: "run initial_form [Submit, EditName [0x41, 0x2028]] =
           step (step initial_form Submit) (EditName [0x41, 0x2028])"
    by (simp only: run_Cons run_Nil)
  show ?thesis
    by (simp only: r edit_name_submitted [OF s] n name_message_separator trim_separator)
      (simp add: starts_with_upper_def upper_class_def)
qed

subsection \<open>Submission\<close>

text \<open>
  \<^bold>\<open>C3\<close>, as the code has it. A submit attempt validates both fields again and passes a
  record to the sink exactly when both are then valid; if either is invalid nothing is
  passed. The record is made from the form data: its name is the Name field's raw value
  with every unpaired surrogate code unit replaced by U+FFFD, which is the raw value
  itself exactly when that has no unpaired surrogate, and its year is \<^verbatim>\<open>Number\<close> applied
  to the Year field's raw value. On a form reached from the rendered one, a click on the
  submit button is this submit attempt: where the browser's own validation stops the
  click, the handler would have passed nothing and changed nothing.
\<close>

theorem submit_gate:
  "name_validity (onSubmit s) = name_message (name_value s) \<and>
   year_validity (onSubmit s) = year_message (name_value s) (year_value s) \<and>
   console (onSubmit s) =
     (if name_validity (onSubmit s) = [] \<and> year_validity (onSubmit s) = []
      then console s @
             [\<lparr>name = to_scalar_values (name_value s), year = Number (year_value s)\<rparr>]
      else console s) \<and>
   (to_scalar_values (name_value s) = name_value s \<longleftrightarrow> well_formed (name_value s)) \<and>
   step (run initial_form es) Submit = onSubmit (run initial_form es)"
  using click_submit_consistent [OF consistent_run [OF consistent_initial, of es]]
  by (simp add: onSubmit_eq Let_def to_scalar_values_fixed)

theorem submit_gate_witness:
  "name_validity (onSubmit (submitted_form (ascii ''Newborn'') (ascii ''2024''))) = [] \<and>
   year_validity (onSubmit (submitted_form (ascii ''Newborn'') (ascii ''2024''))) = [] \<and>
   well_formed (ascii ''Newborn'') \<and>
   console (onSubmit (submitted_form (ascii ''Newborn'') (ascii ''2024''))) =
     [\<lparr>name = ascii ''Newborn'', year = Fin False 2024\<rparr>] \<and>
   year_validity (onSubmit (submitted_form (ascii ''Newborn'') (ascii ''2023''))) \<noteq> [] \<and>
   console (onSubmit (submitted_form (ascii ''Newborn'') (ascii ''2023''))) = []"
  using submit_gate [of "submitted_form (ascii ''Newborn'') (ascii ''2024'')" "[]"]
    submit_gate [of "submitted_form (ascii ''Newborn'') (ascii ''2023'')" "[]"]
  by (simp add: name_message_Newborn year_message_Newborn_2024 year_message_Newborn_2023
      Number_2024 formdata_Newborn messages_nonempty)

text \<open>
  \<^bold>\<open>C3\<close>, as it is worded, fails in the record's name. In the rendered form the Name field
  is given the letter A followed by U+D800, a leading surrogate with nothing after it, and
  the Year field 2024; then the form is submitted. Both fields are valid and one record
  is passed, but its name is A followed by U+FFFD, not the Name field's raw value, which
  the form still holds.
\<close>

theorem submit_record_name_not_raw:
  "name_value (run initial_form [EditName [0x41, 0xD800], EditYear (ascii ''2024''), Submit]) =
     [0x41, 0xD800] \<and>
   year_value (run initial_form [EditName [0x41, 0xD800], EditYear (ascii ''2024''), Submit]) =
     ascii ''2024'' \<and>
   name_validity (run initial_form [EditName [0x41, 0xD800], EditYear (ascii ''2024''), Submit]) =
     [] \<and>
   year_validity (run initial_form [EditName [0x41, 0xD800], EditYear (ascii ''2024''), Submit]) =
     [] \<and>
   console (run initial_form [EditName [0x41, 0xD800], EditYear (ascii ''2024''), Submit]) =
     [\<lparr>name = [0x41, 0xFFFD], year = Fin False 2024\<rparr>] \<and>
   [0x41, 0xFFFD] \<noteq> [0x41, 0xD800 :: code_unit]"
proof -
  let ?s = "initial_form\<lparr>name_value := [0x41, 0xD800], year_value := ascii ''2024''\<rparr>"
  have u: "\<not> was_submitted initial_form"
    "\<not> was_submitted (initial_form\<lparr>name_value := [0x41, 0xD800]\<rparr>)"
    by (simp_all add: initial_form_def)
  have n: "strip_newlines [0x41, 0xD800] = [0x41, 0xD800]"
    "strip_newlines (ascii ''2024'') = ascii ''2024''"
    by (simp_all add: strip_newlines_def ascii_def)
  have v: "name_validity ?s = []" "year_validity ?s = []"
    by (simp_all add: initial_form_def)
  have e1: "step initial_form (EditName [0x41, 0xD800]) =
            initial_form\<lparr>name_value := [0x41, 0xD800]\<rparr>"
    by (simp only: step_unsubmitted(1) [OF u(1)] n)
  have e2: "step (initial_form\<lparr>name_value := [0x41, 0xD800]\<rparr>) (EditYear (ascii ''2024'')) = ?s"
    by (simp only: step_unsubmitted(2) [OF u(2)] n)
  have e3: "step ?s Submit = onSubmit ?s"
    by (simp only: step.simps click_submit_eq v simp_thms if_True)
  have r: "run initial_form [EditName [0x41, 0xD800], EditYear (ascii ''2024''), Submit] =
           onSubmit ?s"
    by (simp only: run_Cons run_Nil e1 e2 e3)
  have nm: "name_message [0x41, 0xD800] = []"
    by (simp add: name_message_def trim_def starts_with_upper_def upper_class_def dot_class_def
      is_trimmed_char_def is_white_space_def is_line_terminator_def)
  have ne: "[0x41, 0xD800] \<noteq> ascii ''Newborn''"
    by (simp add: ascii_def)
  have ym: "year_message [0x41, 0xD800] (ascii ''2024'') = []"
    using ne by (rule year_message_other_2024)
  show ?thesis
    by (simp only: r)
      (simp add: onSubmit_eq Let_def nm ym Number_2024 initial_form_def
        is_leading_surrogate_def is_trailing_surrogate_def)
qed

subsection \<open>Before the first submit attempt\<close>

text \<open>
  \<^bold>\<open>C4.\<close> While the form has not been submitted, each of the two input handlers returns
  the state as it was, and after any sequence of edits of the two fields the form is still
  not submitted, both validation messages and both message regions are what they were
  before, and no region has become visible: whatever the fields contain, no message is
  computed or shown.
\<close>

theorem no_validation_before_submit:
  assumes "\<not> was_submitted s" and "Submit \<notin> set es"
  shows "name_onInput s = s \<and> year_onInput s = s \<and>
         \<not> was_submitted (run s es) \<and>
         name_validity (run s es) = name_validity s \<and>
         year_validity (run s es) = year_validity s \<and>
         name_text (run s es) = name_text s \<and> year_text (run s es) = year_text s \<and>
         name_visible (run s es) = name_visible s \<and> year_visible (run s es) = year_visible s"
  using run_unsubmitted [OF assms] assms(1)
  by (simp add: onInput_unsubmitted name_visible_def year_visible_def)

theorem no_validation_before_submit_witness:
  "\<not> was_submitted initial_form \<and> Submit \<notin> set [EditName [], EditYear (ascii ''abc'')] \<and>
   name_validity (run initial_form [EditName [], EditYear (ascii ''abc'')]) = [] \<and>
   year_validity (run initial_form [EditName [], EditYear (ascii ''abc'')]) = [] \<and>
   \<not> name_visible (run initial_form [EditName [], EditYear (ascii ''abc'')]) \<and>
   \<not> year_visible (run initial_form [EditName [], EditYear (ascii ''abc'')])"
  using no_validation_before_submit [of initial_form "[EditName [], EditYear (ascii ''abc'')]"]
  by (simp add: initial_form_def name_visible_def year_visible_def)

subsection \<open>The dependency between the fields\<close>

text \<open>
  \<^bold>\<open>C5.\<close> Once the form has been submitted, the Name handler is its own validation
  followed by the Year handler, and after an edit of the Name field the Year message is the
  one the Year rules give for the new Name value. The Year handler, submitted or not,
  leaves the Name field's value, message and message region as they were.
\<close>

theorem name_revalidates_year:
  "(was_submitted s \<longrightarrow>
      name_onInput s = year_onInput (show_name (name_message (name_value s)) s) \<and>
      name_validity (step s (EditName v)) = name_message (strip_newlines v) \<and>
      year_validity (step s (EditName v)) = year_message (strip_newlines v) (year_value s)) \<and>
   name_value (year_onInput s) = name_value s \<and>
   name_validity (year_onInput s) = name_validity s \<and>
   name_text (year_onInput s) = name_text s"
  by (simp add: name_onInput_submitted year_onInput_eq)

theorem name_revalidates_year_witness:
  "was_submitted (submitted_form [] (ascii ''2023'')) \<and>
   year_validity (year_onInput (submitted_form [] (ascii ''2023''))) = [] \<and>
   year_validity (step (submitted_form [] (ascii ''2023'')) (EditName (ascii ''Newborn''))) =
     ascii ''Newborn can not be born before 2024''"
proof -
  let ?s = "submitted_form [] (ascii ''2023'')"
  have h: "was_submitted ?s" by simp
  have n: "strip_newlines (ascii ''Newborn'') = ascii ''Newborn''"
    by (simp add: strip_newlines_def ascii_def)
  from name_revalidates_year [of ?s "ascii ''Newborn''"] h
  have "year_validity (step ?s (EditName (ascii ''Newborn''))) =
          year_message (strip_newlines (ascii ''Newborn'')) (year_value ?s)"
    by blast
  then have "year_validity (step ?s (EditName (ascii ''Newborn''))) =
          ascii ''Newborn can not be born before 2024''"
    by (simp only: n submitted_form_fields year_message_Newborn_2023)
  moreover have "year_validity (year_onInput ?s) = []"
    by (simp add: year_onInput_eq year_message_other_2023 not_Newborn)
  ultimately show ?thesis using h by blast
qed

subsection \<open>The was-submitted flag\<close>

text \<open>
  \<^bold>\<open>C6.\<close> The flag is unset in the rendered form, every submit attempt sets it, and once
  set it stays set through every event and every sequence of events; so after a sequence
  of events from the rendered form it is set exactly when a submit attempt was among them.
\<close>

theorem was_submitted_latch:
  "\<not> was_submitted initial_form \<and> was_submitted (onSubmit s) \<and>
   (was_submitted s \<longrightarrow> was_submitted (step s e) \<and> was_submitted (run s es)) \<and>
   (was_submitted (run initial_form es) \<longleftrightarrow> Submit \<in> set es)"
  using was_submitted_run [OF consistent_initial, of es]
  by (simp add: was_submitted_onSubmit was_submitted_step was_submitted_run_mono
      initial_form_def)

theorem was_submitted_latch_witness:
  "was_submitted (onSubmit initial_form) \<and>
   was_submitted (step (onSubmit initial_form) (EditName [])) \<and>
   was_submitted (run (onSubmit initial_form) [EditYear [], Submit, EditName []])"
  using was_submitted_latch [of initial_form]
    was_submitted_latch [of "onSubmit initial_form" "EditName []"
      "[EditYear [], Submit, EditName []]"]
  by simp

subsection \<open>The parse is guarded\<close>

text \<open>
  \<^bold>\<open>C7.\<close> On a value that matches the digits pattern \<^verbatim>\<open>Number\<close> is never NaN, so the
  \<^verbatim>\<open>isNaN\<close> test of the second Year rule never decides. A submit attempt passes a record
  only when the Year value matches the pattern and the Year field is valid, and the year
  of that record is not NaN. No record ever passed to the sink, after any sequence of
  events from the rendered form, has NaN as its year.
\<close>

theorem parse_is_guarded:
  "(matches year_regex v \<longrightarrow> \<not> isNaN (Number v)) \<and>
   (console (onSubmit s) \<noteq> console s \<longrightarrow>
      matches year_regex (year_value s) \<and> year_validity (onSubmit s) = [] \<and>
      \<not> isNaN (year (last (console (onSubmit s))))) \<and>
   (\<forall>r\<in>set (console (run initial_form es)). \<not> isNaN (year r))"
proof -
  have a: "matches year_regex v \<longrightarrow> \<not> isNaN (Number v)"
    by (simp add: matches_year_regex isNaN_def Number_digits_not_NaN)
  have b: "console (onSubmit s) \<noteq> console s \<longrightarrow>
      matches year_regex (year_value s) \<and> year_validity (onSubmit s) = [] \<and>
      \<not> isNaN (year (last (console (onSubmit s))))"
    by (auto simp: onSubmit_eq Let_def matches_year_regex isNaN_def Number_digits_not_NaN
        dest: year_message_empty_digits)
  have "\<forall>r\<in>set (console initial_form). year r \<noteq> NaN"
    by (simp add: initial_form_def)
  then have c: "\<forall>r\<in>set (console (run initial_form es)). \<not> isNaN (year r)"
    unfolding isNaN_def by (rule console_run_years)
  from a b c show ?thesis by blast
qed

theorem parse_is_guarded_witness:
  "matches year_regex (ascii ''2024'') \<and> \<not> isNaN (Number (ascii ''2024'')) \<and>
   console (onSubmit (submitted_form (ascii ''Newborn'') (ascii ''2024''))) \<noteq>
     console (submitted_form (ascii ''Newborn'') (ascii ''2024'')) \<and>
   \<not> isNaN (year (last (console (onSubmit (submitted_form (ascii ''Newborn'') (ascii ''2024''))))))"
  using parse_is_guarded [of "ascii ''2024''"
      "submitted_form (ascii ''Newborn'') (ascii ''2024'')" "[]"]
  by (simp add: matches_year_regex digits_2024 onSubmit_eq Let_def
      name_message_Newborn year_message_Newborn_2024)

subsection \<open>What the Year field sees of the Name field\<close>

text \<open>
  \<^bold>\<open>C8.\<close> Take two forms with the same was-submitted flag and the same Year value,
  whose Name values agree on being exactly ``Newborn''; the Name values themselves, the
  Name field's message and so its validity may differ. If the flag is set, the Year
  handler computes the same Year message in both. If it is unset, the handler computes
  none and leaves each form as it was. Either way, two forms whose Year messages were the
  same before the handler ran have the same Year message after it.
\<close>

theorem year_sees_only_Newborn:
  assumes "was_submitted s1 = was_submitted s2" and "year_value s1 = year_value s2"
    and "name_value s1 = ascii ''Newborn'' \<longleftrightarrow> name_value s2 = ascii ''Newborn''"
  shows "(was_submitted s1 \<longrightarrow>
            year_validity (year_onInput s1) = year_validity (year_onInput s2)) \<and>
         (\<not> was_submitted s1 \<longrightarrow> year_onInput s1 = s1 \<and> year_onInput s2 = s2) \<and>
         (year_validity s1 = year_validity s2 \<longrightarrow>
            year_validity (year_onInput s1) = year_validity (year_onInput s2))"
  using assms(1,2) year_message_cong [OF assms(3), of "year_value s2"]
  by (simp add: year_onInput_eq)

theorem year_sees_only_Newborn_witness:
  "name_validity (name_onInput (submitted_form (ascii ''alice'') (ascii ''2024''))) \<noteq> [] \<and>
   name_validity (submitted_form [] (ascii ''2024'')) = [] \<and>
   ascii ''alice'' \<noteq> ascii ''Newborn'' \<and> [] \<noteq> ascii ''Newborn'' \<and>
   year_validity (year_onInput (name_onInput (submitted_form (ascii ''alice'') (ascii ''2024'')))) =
     year_validity (year_onInput (submitted_form [] (ascii ''2024''))) \<and>
   year_validity (year_onInput (submitted_form [] (ascii ''2024''))) = []"
proof -
  let ?a = "name_onInput (submitted_form (ascii ''alice'') (ascii ''2024''))"
  let ?b = "submitted_form [] (ascii ''2024'')"
  note ne = not_Newborn
  have a: "was_submitted ?a" "year_value ?a = ascii ''2024''" "name_value ?a = ascii ''alice''"
    "name_validity ?a = ascii ''Field is invalid''"
    by (simp_all add: name_onInput_submitted name_message_alice)
  have "was_submitted ?a = was_submitted ?b" "year_value ?a = year_value ?b"
    "name_value ?a = ascii ''Newborn'' \<longleftrightarrow> name_value ?b = ascii ''Newborn''"
    by (simp_all add: a ne)
  from year_sees_only_Newborn [OF this] a(1)
  have "year_validity (year_onInput ?a) = year_validity (year_onInput ?b)"
    by blast
  moreover have "year_validity (year_onInput ?b) = []"
    using ne by (simp add: year_onInput_eq year_message_other_2024)
  ultimately show ?thesis using a ne by (simp add: messages_nonempty)
qed

subsection \<open>The digit check against \<^verbatim>\<open>Number\<close>\<close>

text \<open>
  \<^bold>\<open>C9\<close>, as the code has it. Once the form has been submitted, a Year value whose
  trimmed form is not empty and which has a code unit that is not an ASCII digit gets
  ``Field must be a number''. That is stricter than \<^verbatim>\<open>Number\<close>: a leading space, a sign
  and an exponent are each refused, on values that \<^verbatim>\<open>Number\<close> turns into 2005, 2005
  and 2000.
\<close>

theorem digit_check_stricter_than_Number:
  "(was_submitted s \<and> length (trim (year_value s)) \<noteq> 0 \<and>
      (\<exists>c\<in>set (year_value s). \<not> digit_class c) \<longrightarrow>
    year_validity (year_onInput s) = ascii ''Field must be a number'') \<and>
   Number (ascii '' 2005'') = Fin False 2005 \<and>
   year_validity (year_onInput (submitted_form nm (ascii '' 2005''))) =
     ascii ''Field must be a number'' \<and>
   Number (ascii ''+2005'') = Fin False 2005 \<and>
   year_validity (year_onInput (submitted_form nm (ascii ''+2005''))) =
     ascii ''Field must be a number'' \<and>
   Number (ascii ''2e3'') = Fin False 2000 \<and>
   year_validity (year_onInput (submitted_form nm (ascii ''2e3''))) =
     ascii ''Field must be a number''"
proof -
  have "year_validity (year_onInput s) = ascii ''Field must be a number''"
    if "was_submitted s" and "length (trim (year_value s)) \<noteq> 0"
      and "\<exists>c\<in>set (year_value s). \<not> digit_class c"
    using that(1) year_message_not_digits [OF that(2,3)] by (simp add: year_onInput_eq)
  then show ?thesis
    by (simp add: year_onInput_eq year_message_examples
        Number_space_2005 Number_plus_2005 Number_2e3)
qed

theorem digit_check_stricter_than_Number_witness:
  "was_submitted (submitted_form [] (ascii '' 2005'')) \<and>
   length (trim (year_value (submitted_form [] (ascii '' 2005'')))) \<noteq> 0 \<and>
   (\<exists>c\<in>set (year_value (submitted_form [] (ascii '' 2005''))). \<not> digit_class c) \<and>
   \<not> js_lt (Number (year_value (submitted_form [] (ascii '' 2005'')))) (Fin False 2000) \<and>
   year_validity (year_onInput (submitted_form [] (ascii '' 2005''))) =
     ascii ''Field must be a number''"
proof -
  let ?s = "submitted_form [] (ascii '' 2005'')"
  have h: "was_submitted ?s" "length (trim (year_value ?s)) \<noteq> 0"
    "\<exists>c\<in>set (year_value ?s). \<not> digit_class c"
    using not_digits_examples(1,2) by simp_all
  from digit_check_stricter_than_Number [of ?s "[]"] h
  have "year_validity (year_onInput ?s) = ascii ''Field must be a number''"
    by blast
  moreover have "\<not> js_lt (Number (year_value ?s)) (Fin False 2000)"
    by (simp add: Number_space_2005)
  ultimately show ?thesis using h by blast
qed

text \<open>
  \<^bold>\<open>C9\<close>, as it is worded, names no condition on the form, and fails before the first
  submit attempt. In the rendered form the Year field is given `` 2005'': the trimmed value
  is not empty and the value has a code unit that is not a digit, yet the Year handler
  returns at its first statement and the message stays empty.
\<close>

theorem digit_check_before_submit:
  "\<not> was_submitted (run initial_form [EditYear (ascii '' 2005'')]) \<and>
   year_value (run initial_form [EditYear (ascii '' 2005'')]) = ascii '' 2005'' \<and>
   length (trim (ascii '' 2005'')) \<noteq> 0 \<and>
   (\<exists>c\<in>set (ascii '' 2005''). \<not> digit_class c) \<and>
   year_validity (run initial_form [EditYear (ascii '' 2005'')]) = [] \<and>
   year_validity (year_onInput (run initial_form [EditYear (ascii '' 2005'')])) = [] \<and>
   ascii ''Field must be a number'' \<noteq> []"
proof -
  have u: "\<not> was_submitted initial_form" by (simp add: initial_form_def)
  have n: "strip_newlines (ascii '' 2005'') = ascii '' 2005''"
    by (simp add: strip_newlines_def ascii_def)
  have r: "run initial_form [EditYear (ascii '' 2005'')] =
           initial_form\<lparr>year_value := ascii '' 2005''\<rparr>"
    by (simp only: run_Cons run_Nil step_unsubmitted(2) [OF u] n)
  have "year_onInput (initial_form\<lparr>year_value := ascii '' 2005''\<rparr>) =
        initial_form\<lparr>year_value := ascii '' 2005''\<rparr>"
    by (rule onInput_unsubmitted) (simp add: initial_form_def)
  then show ?thesis
    using not_digits_examples(1,2)
    by (simp add: r messages_nonempty) (simp add: initial_form_def)
qed

subsection \<open>Idempotence\<close>

text \<open>
  \<^bold>\<open>C10.\<close> Running a field's handler twice gives the state that running it once gives,
  for the Year handler and for the Name handler. The Year handler run after the Name
  handler, as a submit attempt does, changes nothing, and the submit attempt ends in the
  state it would end in if it ran the Year handler only once.
\<close>

theorem validation_idempotent:
  "year_onInput (year_onInput s) = year_onInput s \<and>
   name_onInput (name_onInput s) = name_onInput s \<and>
   year_onInput (name_onInput s) = name_onInput s \<and>
   onSubmit s = onSubmit_once s"
  using onSubmit_once_eq [of s]
  by (simp add: year_onInput_idem name_onInput_idem year_name_onInput)

theorem validation_idempotent_witness:
  "year_onInput (year_onInput (submitted_form (ascii ''Newborn'') (ascii ''2023''))) =
     year_onInput (submitted_form (ascii ''Newborn'') (ascii ''2023'')) \<and>
   year_validity (year_onInput (submitted_form (ascii ''Newborn'') (ascii ''2023''))) =
     ascii ''Newborn can not be born before 2024'' \<and>
   onSubmit (submitted_form (ascii ''Newborn'') (ascii ''2023'')) =
     onSubmit_once (submitted_form (ascii ''Newborn'') (ascii ''2023''))"
  using validation_idempotent [of "submitted_form (ascii ''Newborn'') (ascii ''2023'')"]
  by (simp add: year_onInput_eq year_message_Newborn_2023)

end
